theory Spec2Isabelle
  imports Complex_Main "HOL-Library.Sublist"
begin

section \<open>Repository health score: the collectors and the aggregator of compute\_score.py\<close>

text \<open>
  The script computes six metric values and combines them with fixed weights. The model
  below follows \<^verbatim>\<open>compute_score.py\<close> function by function.

  Conventions of the embedding.
  \<^item> A Python \<^verbatim>\<open>float\<close> is a \<^typ>\<open>real\<close>: arithmetic is exact, so rounding error, the
    infinities and NaN are outside the model.
  \<^item> A raised exception is a value \<open>Inl e\<close> of \<open>exn + 'a\<close>; a \<^verbatim>\<open>try/except\<close> is a case
    distinction on that sum.
  \<^item> What the script reads from outside (environment variables, the file system, the
    exit status and the output of a subprocess, the answer of the network) is a field of
    the record \<open>world\<close>.
\<close>

subsection \<open>Exceptions and evidence\<close>

datatype exn =
    KeyError
  | ValueError
  | AttributeError
  | TypeError
  | ZeroDivisionError
  | FileNotFoundError
  | IsADirectoryError
  | PermissionError
  | OSError
  | CalledProcessError
  | Failure string  \<comment> \<open>an exception raised by a parser or the network\<close>

text \<open>The evidence dictionaries, as the association lists of their items in insertion order.
  \<open>EMsg e\<close> is the text \<^verbatim>\<open>str(e)\<close> of a caught exception.\<close>

datatype ev =
    EInt int
  | EReal real
  | EBool bool
  | EStr string
  | EMsg exn
  | EDict "(string \<times> ev) list"

type_synonym evidence = "(string \<times> ev) list"
type_synonym metric_result = "real \<times> evidence"

subsection \<open>Strings\<close>

text \<open>\<^verbatim>\<open>str.lower\<close>, on the ASCII letters.\<close>

definition lower_char :: "char \<Rightarrow> char" where
  "lower_char c =
     (case map_of (zip ''ABCDEFGHIJKLMNOPQRSTUVWXYZ'' ''abcdefghijklmnopqrstuvwxyz'') c of
        None \<Rightarrow> c
      | Some d \<Rightarrow> d)"

definition lower :: "string \<Rightarrow> string" where
  "lower s = map lower_char s"

text \<open>\<^verbatim>\<open>str.strip\<close>: leading and trailing white space (of ASCII) removed.\<close>

definition is_space :: "char \<Rightarrow> bool" where
  "is_space c = (c \<in> set [CHR '' '', CHR 0x09, CHR 0x0A, CHR 0x0B, CHR 0x0C, CHR 0x0D,
                            CHR 0x1C, CHR 0x1D, CHR 0x1E, CHR 0x1F])"

definition strip :: "string \<Rightarrow> string" where
  "strip s = rev (dropWhile is_space (rev (dropWhile is_space s)))"

text \<open>\<^verbatim>\<open>sub in s\<close> is \<^term>\<open>sublist sub s\<close>. \<^verbatim>\<open>s.count(sub)\<close> counts the occurrences of
  \<open>sub\<close> from left to right without overlap.\<close>

function count_str :: "string \<Rightarrow> string \<Rightarrow> nat" where
  "count_str sub s =
     (if sub = [] then length s + 1
      else if length s < length sub then 0
      else if take (length sub) s = sub then 1 + count_str sub (drop (length sub) s)
      else count_str sub (tl s))"
  by pat_completeness auto
termination
proof (relation "measure (\<lambda>(sub, s). length s)")
  show "wf (measure (\<lambda>(sub, s). length s))" by simp
next
  fix sub s :: string
  assume a: "sub \<noteq> []" "\<not> length s < length sub"
  then obtain x xs where "sub = x # xs" by (cases sub) auto
  with a show "((sub, drop (length sub) s), (sub, s)) \<in> measure (\<lambda>(sub, s). length s)"
    by simp
next
  fix sub s :: string
  assume "sub \<noteq> []" "\<not> length s < length sub"
  then have "s \<noteq> []" by (cases s) simp_all
  then show "((sub, tl s), (sub, s)) \<in> measure (\<lambda>(sub, s). length s)"
    by (cases s) simp_all
qed

declare count_str.simps [simp del]

text \<open>\<^verbatim>\<open>s.split(sep)\<close> for a separator of one character; \<open>cur\<close> holds the current piece,
  reversed.\<close>

fun split_on :: "char \<Rightarrow> string \<Rightarrow> string \<Rightarrow> string list" where
  "split_on sep cur [] = [rev cur]"
| "split_on sep cur (x # xs) =
     (if x = sep then rev cur # split_on sep [] xs else split_on sep (x # cur) xs)"

definition py_split :: "string \<Rightarrow> char \<Rightarrow> string list" where
  "py_split s sep = split_on sep [] s"

text \<open>The number of lines that iterating over an open text file yields, on the text after
  the translation of line ends.\<close>

definition num_lines :: "string \<Rightarrow> nat" where
  "num_lines s =
     length (filter (\<lambda>c. c = CHR 0x0A) s) + (if s \<noteq> [] \<and> last s \<noteq> CHR 0x0A then 1 else 0)"

text \<open>\<^verbatim>\<open>round(x, n)\<close>: to \<open>n\<close> decimals, a tie going to the even neighbour.\<close>

definition py_round :: "real \<Rightarrow> nat \<Rightarrow> real" where
  "py_round x n =
     (let y = x * 10 ^ n; f = \<lfloor>y\<rfloor>; d = y - of_int f
      in of_int (if d < 1 / 2 then f else if 1 / 2 < d then f + 1
                 else if even f then f else f + 1) / 10 ^ n)"

subsection \<open>JSON values and the operations the script applies to them\<close>

datatype json =
    JNull
  | JBool bool
  | JNum real
  | JStr string
  | JArr "json list"
  | JObj "(string \<times> json) list"

text \<open>\<^verbatim>\<open>d.get(key, default)\<close>: only a dictionary has the method.\<close>

fun py_get :: "json \<Rightarrow> string \<Rightarrow> json \<Rightarrow> exn + json" where
  "py_get (JObj kvs) key dflt = Inr (case map_of kvs key of None \<Rightarrow> dflt | Some v \<Rightarrow> v)"
| "py_get _ key dflt = Inl AttributeError"

text \<open>\<^verbatim>\<open>for x in v\<close>: a list yields its items, a string its characters, a dictionary its keys.\<close>

fun py_iter :: "json \<Rightarrow> exn + json list" where
  "py_iter (JArr xs) = Inr xs"
| "py_iter (JStr s) = Inr (map (\<lambda>c. JStr [c]) s)"
| "py_iter (JObj kvs) = Inr (map (\<lambda>kv. JStr (fst kv)) kvs)"
| "py_iter _ = Inl TypeError"

fun py_len :: "json \<Rightarrow> exn + nat" where
  "py_len (JArr xs) = Inr (length xs)"
| "py_len (JStr s) = Inr (length s)"
| "py_len (JObj kvs) = Inr (length kvs)"
| "py_len _ = Inl TypeError"

text \<open>Truth value of an object, as \<^verbatim>\<open>not runs\<close> tests it.\<close>

fun truthy :: "json \<Rightarrow> bool" where
  "truthy JNull = False"
| "truthy (JBool b) = b"
| "truthy (JNum x) = (x \<noteq> 0)"
| "truthy (JStr s) = (s \<noteq> [])"
| "truthy (JArr xs) = (xs \<noteq> [])"
| "truthy (JObj kvs) = (kvs \<noteq> [])"

text \<open>\<^verbatim>\<open>v.lower()\<close>: only a string has the method.\<close>

fun py_lower :: "json \<Rightarrow> exn + string" where
  "py_lower (JStr s) = Inr (lower s)"
| "py_lower _ = Inl AttributeError"

text \<open>\<^verbatim>\<open>a / b\<close> on two integers.\<close>

definition py_truediv :: "nat \<Rightarrow> nat \<Rightarrow> exn + real" where
  "py_truediv a b = (if b = 0 then Inl ZeroDivisionError else Inr (real a / real b))"

subsection \<open>Files\<close>

text \<open>What a path names: a directory, a file with its text, a file that cannot be opened, or
  something whose status cannot even be read (a name that is too long, a directory on the
  way that may not be searched). A path that names nothing is not in the map.\<close>

datatype node = Dir | File string | Unreadable | NoStat

type_synonym fs = "string \<rightharpoonup> node"

text \<open>\<^verbatim>\<open>Path(p).exists()\<close>: an error of the status call other than "not found" is raised.\<close>

definition path_exists :: "fs \<Rightarrow> string \<Rightarrow> exn + bool" where
  "path_exists fls p =
     (case fls p of
        None \<Rightarrow> Inr False
      | Some NoStat \<Rightarrow> Inl OSError
      | Some _ \<Rightarrow> Inr True)"

text \<open>\<^verbatim>\<open>Path(p).read_text(...)\<close> and \<^verbatim>\<open>open(p, 'r', ...).read()\<close>.\<close>

definition read_text :: "fs \<Rightarrow> string \<Rightarrow> exn + string" where
  "read_text fls p =
     (case fls p of
        None \<Rightarrow> Inl FileNotFoundError
      | Some Dir \<Rightarrow> Inl IsADirectoryError
      | Some Unreadable \<Rightarrow> Inl PermissionError
      | Some NoStat \<Rightarrow> Inl OSError
      | Some (File s) \<Rightarrow> Inr s)"

text \<open>\<^verbatim>\<open>open(p, 'r', ...).read(n)\<close>: the first \<open>n\<close> characters.\<close>

definition read_n :: "fs \<Rightarrow> string \<Rightarrow> nat \<Rightarrow> exn + string" where
  "read_n fls p n = (case read_text fls p of Inl e \<Rightarrow> Inl e | Inr s \<Rightarrow> Inr (take n s))"

subsection \<open>Subprocesses\<close>

text \<open>A subprocess either cannot be started or exits with a status and an output.
  \<^verbatim>\<open>subprocess.check_output\<close> returns the output of a process that exits with the status 0 and
  raises \<^verbatim>\<open>CalledProcessError\<close> for every other status.\<close>

datatype 'a proc = NotStarted exn | Exited int 'a

definition check_output :: "'a proc \<Rightarrow> exn + 'a" where
  "check_output pr =
     (case pr of
        NotStarted e \<Rightarrow> Inl e
      | Exited status out \<Rightarrow> if status = 0 then Inr out else Inl CalledProcessError)"

subsection \<open>XML elements\<close>

datatype xml = Elem (tag: string) (attrib: "(string \<times> string) list") (children: "xml list")

text \<open>The elements below a given one, in document order, and \<^verbatim>\<open>root.find(".//coverage")\<close>.\<close>

fun descendants :: "xml \<Rightarrow> xml list" where
  "descendants (Elem t a cs) = concat (map (\<lambda>c. c # descendants c) cs)"

definition find_coverage :: "xml \<Rightarrow> xml option" where
  "find_coverage rt =
     (case filter (\<lambda>e. tag e = ''coverage'') (descendants rt) of
        [] \<Rightarrow> None
      | e # _ \<Rightarrow> Some e)"

subsection \<open>The outside world of one run\<close>

record world =
  GITHUB_REPOSITORY :: "string option"
  GITHUB_TOKEN :: "string option"
  COVERAGE_PATH :: "string option"
  files :: fs
  glob_py :: "string list"  \<comment> \<open>\<^verbatim>\<open>glob.glob("**/*.py", recursive=True)\<close>\<close>
  glob_tests :: "string list"  \<comment> \<open>\<^verbatim>\<open>glob.glob("test_*") + glob.glob("*/tests/*")\<close>\<close>
  et_parse :: "string \<Rightarrow> exn + xml"  \<comment> \<open>the root of \<^verbatim>\<open>ET.parse(p)\<close>\<close>
  coverage_run :: "exn + xml"
    \<comment> \<open>the two \<^verbatim>\<open>coverage\<close> subprocesses and the root of the regenerated report\<close>
  vulture :: "(exn + string list) proc"
    \<comment> \<open>the process \<^verbatim>\<open>vulture\<close>; its output through \<^verbatim>\<open>decode\<close> and \<^verbatim>\<open>splitlines\<close>\<close>
  bandit :: "(exn + json) proc"
    \<comment> \<open>the process \<^verbatim>\<open>bandit\<close>; its output through \<^verbatim>\<open>json.loads\<close>\<close>
  requests_get :: "string \<Rightarrow> exn + json"  \<comment> \<open>\<^verbatim>\<open>requests.get(url, ...).json()\<close>\<close>
  py_float :: "string \<Rightarrow> real option"
    \<comment> \<open>the built-in \<^verbatim>\<open>float\<close> on a string; \<open>None\<close> is its \<^verbatim>\<open>ValueError\<close>\<close>

subsection \<open>score\_structure\<close>

definition required :: "string list" where
  "required = [''README.md'', ''LICENSE'', ''.github'', ''src'', ''setup.py'', ''pyproject.toml'']"

fun found_loop :: "fs \<Rightarrow> string list \<Rightarrow> nat \<Rightarrow> exn + nat" where
  "found_loop fls [] found = Inr found"
| "found_loop fls (f # fs) found =
     (case path_exists fls f of
        Inl e \<Rightarrow> Inl e
      | Inr b \<Rightarrow> found_loop fls fs (if b then found + 1 else found))"

definition score_structure :: "world \<Rightarrow> exn + metric_result" where
  "score_structure w =
     (case found_loop (files w) required 0 of
        Inl e \<Rightarrow> Inl e
      | Inr found \<Rightarrow>
          Inr (real found / real (length required),
               [(''found_count'', EInt (int found)), (''required'', EInt (int (length required)))]))"

subsection \<open>score\_tests\<close>

text \<open>The \<^verbatim>\<open>line-rate\<close> of an element, times 100; \<open>Inr None\<close> when neither the root nor a nested
  \<^verbatim>\<open>coverage\<close> element has the attribute, \<open>Inl\<close> when \<^verbatim>\<open>float\<close> rejects its text.\<close>

definition rate_pct :: "world \<Rightarrow> string \<Rightarrow> exn + real" where
  "rate_pct w txt = (case py_float w txt of None \<Rightarrow> Inl ValueError | Some x \<Rightarrow> Inr (x * 100))"

definition report_pct :: "world \<Rightarrow> xml \<Rightarrow> exn + real option" where
  "report_pct w rt =
     (case map_of (attrib rt) ''line-rate'' of
        Some txt \<Rightarrow> map_sum id Some (rate_pct w txt)
      | None \<Rightarrow>
          (case find_coverage rt of
             None \<Rightarrow> Inr None
           | Some cov \<Rightarrow>
               (case map_of (attrib cov) ''line-rate'' of
                  None \<Rightarrow> Inr None
                | Some txt \<Rightarrow> map_sum id Some (rate_pct w txt))))"

text \<open>The loop over \<^verbatim>\<open>cov_files\<close>: the first existing report that is read without an
  exception ends the loop (\<^verbatim>\<open>break\<close>); an exception of the reading moves on to the next
  path. The test \<^verbatim>\<open>p.exists()\<close> stands before the \<^verbatim>\<open>try\<close>, so its exception leaves the
  collector.\<close>

fun cov_loop :: "world \<Rightarrow> string list \<Rightarrow> exn + real option" where
  "cov_loop w [] = Inr None"
| "cov_loop w (p # ps) =
     (case path_exists (files w) p of
        Inl e \<Rightarrow> Inl e
      | Inr False \<Rightarrow> cov_loop w ps
      | Inr True \<Rightarrow>
          (case (case et_parse w p of Inl e \<Rightarrow> Inl e | Inr rt \<Rightarrow> report_pct w rt) of
             Inl e \<Rightarrow> cov_loop w ps
           | Inr coverage_pct \<Rightarrow> Inr coverage_pct))"

definition cov_files :: "world \<Rightarrow> string list" where
  "cov_files w =
     (case COVERAGE_PATH w of
        None \<Rightarrow> []
      | Some p \<Rightarrow> if p = [] then [] else [p])
     @ [''coverage.xml'', ''htmlcov/coverage.xml'']"

text \<open>The fallback: with tests present the suite is run under coverage, and any exception
  of that gives 0. The test \<^verbatim>\<open>Path("tests").exists()\<close> is not inside the \<^verbatim>\<open>try\<close>.\<close>

definition rerun_pct :: "world \<Rightarrow> real" where
  "rerun_pct w =
     (case coverage_run w of
        Inl e \<Rightarrow> 0
      | Inr rt \<Rightarrow>
          (case rate_pct w (case map_of (attrib rt) ''line-rate'' of None \<Rightarrow> ''0'' | Some txt \<Rightarrow> txt) of
             Inl e \<Rightarrow> 0
           | Inr x \<Rightarrow> x))"

definition fallback_pct :: "world \<Rightarrow> exn + real" where
  "fallback_pct w =
     (case path_exists (files w) ''tests'' of
        Inl e \<Rightarrow> Inl e
      | Inr b \<Rightarrow> Inr (if b \<or> glob_tests w \<noteq> [] then rerun_pct w else 0))"

definition score_tests :: "world \<Rightarrow> exn + metric_result" where
  "score_tests w =
     (case (case cov_loop w (cov_files w) of
              Inl e \<Rightarrow> Inl e
            | Inr None \<Rightarrow> fallback_pct w
            | Inr (Some x) \<Rightarrow> Inr x) of
        Inl e \<Rightarrow> Inl e
      | Inr coverage_pct \<Rightarrow>
          Inr (min (max (coverage_pct / 100) 0) 1,
               [(''coverage_pct'', EReal (py_round coverage_pct 2))]))"

subsection \<open>score\_dead\_code\<close>

text \<open>The lines of all Python files; a file that cannot be read is skipped.\<close>

fun total_lines_loop :: "fs \<Rightarrow> string list \<Rightarrow> nat \<Rightarrow> nat" where
  "total_lines_loop fls [] total_lines = total_lines"
| "total_lines_loop fls (f # fs) total_lines =
     (case read_text fls f of
        Inl e \<Rightarrow> total_lines_loop fls fs total_lines
      | Inr s \<Rightarrow> total_lines_loop fls fs (total_lines + num_lines s))"

definition flagged_lines :: "string list \<Rightarrow> nat" where
  "flagged_lines out_lines = length (filter (\<lambda>l. strip l \<noteq> [] \<and> sublist '':'' l) out_lines)"

definition dead_ratio_of :: "world \<Rightarrow> real" where
  "dead_ratio_of w =
     (case (case check_output (vulture w) of Inl e \<Rightarrow> Inl e | Inr decoded \<Rightarrow> decoded) of
        Inl e \<Rightarrow> 0
      | Inr out_lines \<Rightarrow>
          (let flagged = flagged_lines out_lines;
               total_lines = total_lines_loop (files w) (glob_py w) 0;
               dead_ratio = real (flagged * 10) / real (max total_lines 1)
           in min dead_ratio 1))"

definition score_dead_code :: "world \<Rightarrow> metric_result" where
  "score_dead_code w =
     (let dead_ratio = dead_ratio_of w;
          val = 1 - dead_ratio
      in (val, [(''dead_ratio'', EReal (py_round dead_ratio 3))]))"

subsection \<open>score\_security\<close>

text \<open>The loop over the issues, with the penalty so far. An exception inside the loop leaves
  the penalty accumulated before it.\<close>

fun penalty_loop :: "real \<Rightarrow> json list \<Rightarrow> real \<times> exn option" where
  "penalty_loop penalty [] = (penalty, None)"
| "penalty_loop penalty (issue # rest) =
     (case py_get issue ''issue_severity'' (JStr []) of
        Inl e \<Rightarrow> (penalty, Some e)
      | Inr s \<Rightarrow>
          (case py_lower s of
             Inl e \<Rightarrow> (penalty, Some e)
           | Inr sev \<Rightarrow>
               penalty_loop
                 (if sev = ''low'' then penalty + 1 / 2
                  else if sev = ''medium'' then penalty + 2
                  else if sev = ''high'' then penalty + 5
                  else penalty) rest))"

text \<open>The body of the \<^verbatim>\<open>try\<close>: the penalty when it ends, and the exception that ended it.\<close>

definition bandit_penalty :: "world \<Rightarrow> real \<times> exn option" where
  "bandit_penalty w =
     (case (case check_output (bandit w) of Inl e \<Rightarrow> Inl e | Inr loaded \<Rightarrow> loaded) of
        Inl e \<Rightarrow> (0, Some e)
      | Inr data \<Rightarrow>
          (case py_get data ''results'' (JArr []) of
             Inl e \<Rightarrow> (0, Some e)
           | Inr results \<Rightarrow>
               (case py_iter results of
                  Inl e \<Rightarrow> (0, Some e)
                | Inr issues \<Rightarrow> penalty_loop 0 issues)))"

text \<open>The handler: \<^verbatim>\<open>Path('.').read_text(...)\<close> and the search for \<^verbatim>\<open>eval(\<close> or \<^verbatim>\<open>exec(\<close>; an
  exception of the read is swallowed.\<close>

definition heuristic_penalty :: "world \<Rightarrow> real \<Rightarrow> real" where
  "heuristic_penalty w penalty =
     (case read_text (files w) ''.'' of
        Inl e \<Rightarrow> penalty
      | Inr code \<Rightarrow>
          if sublist ''eval('' code \<or> sublist ''exec('' code then penalty + 2 else penalty)"

definition security_penalty :: "world \<Rightarrow> real" where
  "security_penalty w =
     (case bandit_penalty w of
        (penalty, None) \<Rightarrow> penalty
      | (penalty, Some e) \<Rightarrow> heuristic_penalty w penalty)"

definition score_security :: "world \<Rightarrow> metric_result" where
  "score_security w =
     (let penalty = security_penalty w;
          max_penalty = 10;
          val = max 0 (1 - penalty / max_penalty)
      in (val, [(''penalty'', EReal penalty)]))"

subsection \<open>score\_docs\<close>

definition sections :: "string list" where
  "sections = [''installation'', ''usage'', ''license'', ''contributing'']"

text \<open>The loop over the four section names, on the lower-cased text of the README.\<close>

fun readme_loop :: "string \<Rightarrow> string list \<Rightarrow> real \<times> evidence \<Rightarrow> real \<times> evidence" where
  "readme_loop txt [] acc = acc"
| "readme_loop txt (item # rest) (score, details) =
     (let present = sublist item txt
      in readme_loop txt rest
           (if present then score + 1 else score, details @ [(item, EBool present)]))"

definition readme_score :: "world \<Rightarrow> exn + real \<times> evidence" where
  "readme_score w =
     (case path_exists (files w) ''README.md'' of
        Inl e \<Rightarrow> Inl e
      | Inr False \<Rightarrow> Inr (0, [])
      | Inr True \<Rightarrow>
          (case read_text (files w) ''README.md'' of
             Inl e \<Rightarrow> Inl e
           | Inr s \<Rightarrow>
               (case readme_loop (lower s) sections (0, []) of
                  (score, details) \<Rightarrow> Inr (score / 4, details))))"

definition dq3 :: string where
  "dq3 = [CHR 0x22, CHR 0x22, CHR 0x22]"

definition sq3 :: string where
  "sq3 = [CHR 0x27, CHR 0x27, CHR 0x27]"

text \<open>The condition of the generator: the file is opened once, and a second time when the
  first delimiter is not found. Nothing catches an exception of \<^verbatim>\<open>open\<close>.\<close>

definition has_docstring :: "fs \<Rightarrow> string \<Rightarrow> exn + bool" where
  "has_docstring fls f =
     (case read_n fls f 200 of
        Inl e \<Rightarrow> Inl e
      | Inr s \<Rightarrow>
          if 0 < count_str dq3 s then Inr True
          else (case read_n fls f 200 of
                  Inl e \<Rightarrow> Inl e
                | Inr s' \<Rightarrow> Inr (0 < count_str sq3 s')))"

fun has_doc_loop :: "fs \<Rightarrow> string list \<Rightarrow> nat \<Rightarrow> exn + nat" where
  "has_doc_loop fls [] has_doc = Inr has_doc"
| "has_doc_loop fls (f # fs) has_doc =
     (case has_docstring fls f of
        Inl e \<Rightarrow> Inl e
      | Inr b \<Rightarrow> has_doc_loop fls fs (if b then has_doc + 1 else has_doc))"

definition doc_ratio_of :: "world \<Rightarrow> exn + real" where
  "doc_ratio_of w =
     (if glob_py w \<noteq> [] then
        (case has_doc_loop (files w) (glob_py w) 0 of
           Inl e \<Rightarrow> Inl e
         | Inr has_doc \<Rightarrow> Inr (real has_doc / real (length (glob_py w))))
      else Inr 0)"

definition score_docs :: "world \<Rightarrow> exn + metric_result" where
  "score_docs w =
     (case readme_score w of
        Inl e \<Rightarrow> Inl e
      | Inr (score, details) \<Rightarrow>
          (case doc_ratio_of w of
             Inl e \<Rightarrow> Inl e
           | Inr doc_ratio \<Rightarrow>
               Inr (6 / 10 * score + 4 / 10 * doc_ratio,
                    [(''readme_sections'', EDict details),
                     (''doc_ratio'', EReal (py_round doc_ratio 2))])))"

subsection \<open>score\_ci\<close>

fun count_success :: "json list \<Rightarrow> nat \<Rightarrow> exn + nat" where
  "count_success [] success = Inr success"
| "count_success (run # rest) success =
     (case py_get run ''conclusion'' JNull of
        Inl e \<Rightarrow> Inl e
      | Inr c \<Rightarrow> count_success rest (if c = JStr ''success'' then success + 1 else success))"

text \<open>The body of the \<^verbatim>\<open>try\<close>, from the parsed answer on.\<close>

definition ci_runs :: "json \<Rightarrow> exn + metric_result" where
  "ci_runs data =
     (case py_get data ''workflow_runs'' (JArr []) of
        Inl e \<Rightarrow> Inl e
      | Inr runs \<Rightarrow>
          if \<not> truthy runs then Inr (0, [(''total_runs'', EInt 0)])
          else
            (case py_len runs of
               Inl e \<Rightarrow> Inl e
             | Inr total_runs \<Rightarrow>
                 (case py_iter runs of
                    Inl e \<Rightarrow> Inl e
                  | Inr items \<Rightarrow>
                      (case count_success items 0 of
                         Inl e \<Rightarrow> Inl e
                       | Inr success \<Rightarrow>
                           (case py_truediv success total_runs of
                              Inl e \<Rightarrow> Inl e
                            | Inr val \<Rightarrow>
                                Inr (val, [(''total_runs'', EInt (int total_runs)),
                                           (''success'', EInt (int success))]))))))"

definition runs_url :: "string \<Rightarrow> string \<Rightarrow> string" where
  "runs_url owner repo = ''https://api.github.com/repos/'' @ owner @ ''/'' @ repo @ ''/actions/runs''"

text \<open>An environment variable that is missing or empty, as \<^verbatim>\<open>not TOKEN\<close> tests it.\<close>

definition unset :: "string option \<Rightarrow> bool" where
  "unset v = (v = None \<or> v = Some [])"

text \<open>The unpacking \<^verbatim>\<open>owner, repo = REPO.split("/")\<close> stands before the \<^verbatim>\<open>try\<close>: with any
  number of pieces other than two it raises \<^verbatim>\<open>ValueError\<close>.\<close>

definition score_ci :: "world \<Rightarrow> exn + metric_result" where
  "score_ci w =
     (case (GITHUB_TOKEN w, GITHUB_REPOSITORY w) of
        (Some tok, Some rp) \<Rightarrow>
          if tok = [] \<or> rp = [] then Inr (0, [(''note'', EStr ''no token/repo'')])
          else
            (case py_split rp (CHR ''/'') of
               [owner, repo] \<Rightarrow>
                 (case (case requests_get w (runs_url owner repo) of
                          Inl e \<Rightarrow> Inl e
                        | Inr data \<Rightarrow> ci_runs data) of
                    Inl e \<Rightarrow> Inr (0, [(''error'', EMsg e)])
                  | Inr r \<Rightarrow> Inr r)
             | _ \<Rightarrow> Inl ValueError)
      | _ \<Rightarrow> Inr (0, [(''note'', EStr ''no token/repo'')]))"

subsection \<open>The weights and the aggregator\<close>

definition WEIGHTS :: "(string \<times> real) list" where
  "WEIGHTS =
     [(''structure'', 15 / 100),
      (''tests'', 25 / 100),
      (''dead_code'', 10 / 100),
      (''security'', 20 / 100),
      (''docs'', 15 / 100),
      (''ci'', 15 / 100)]"

text \<open>The loop \<^verbatim>\<open>for k,v in WEIGHTS.items(): total += v * scores[k][0]\<close>; a missing key
  raises \<^verbatim>\<open>KeyError\<close>.\<close>

fun combine_loop :: "(string \<rightharpoonup> metric_result) \<Rightarrow> real \<Rightarrow> (string \<times> real) list \<Rightarrow> exn + real" where
  "combine_loop scores tot [] = Inr tot"
| "combine_loop scores tot ((k, v) # ws) =
     (case scores k of
        None \<Rightarrow> Inl KeyError
      | Some r \<Rightarrow> combine_loop scores (tot + v * fst r) ws)"

definition combine :: "(string \<rightharpoonup> metric_result) \<Rightarrow> exn + real" where
  "combine scores =
     (case combine_loop scores 0 WEIGHTS of
        Inl e \<Rightarrow> Inl e
      | Inr tot \<Rightarrow> Inr (tot * 100))"

text \<open>The weighted sum the loop computes, written as a sum over the table.\<close>

definition weighted_sum :: "(string \<rightharpoonup> metric_result) \<Rightarrow> (string \<times> real) list \<Rightarrow> real" where
  "weighted_sum scores ws = (\<Sum>(k, v) \<leftarrow> ws. v * fst (the (scores k)))"

text \<open>A metric that is present with a value between 0 and 1.\<close>

definition unit_value :: "metric_result option \<Rightarrow> bool" where
  "unit_value r = (case r of None \<Rightarrow> False | Some (v, e) \<Rightarrow> 0 \<le> v \<and> v \<le> 1)"

subsection \<open>main\<close>

text \<open>The six collectors in the order of the script, then the aggregator. An exception of a
  collector is not caught. The report is the dictionary \<^verbatim>\<open>out\<close> before \<^verbatim>\<open>final_score\<close>
  is added, and the rounded final score.\<close>

definition main :: "world \<Rightarrow> exn + (string \<times> metric_result) list \<times> real" where
  "main w =
     (case score_structure w of
        Inl e \<Rightarrow> Inl e
      | Inr struct \<Rightarrow>
          (case score_tests w of
             Inl e \<Rightarrow> Inl e
           | Inr tests \<Rightarrow>
               (let out = [(''structure'', struct),
                           (''tests'', tests),
                           (''dead_code'', score_dead_code w),
                           (''security'', score_security w)]
                in case score_docs w of
                     Inl e \<Rightarrow> Inl e
                   | Inr docs \<Rightarrow>
                       (case score_ci w of
                          Inl e \<Rightarrow> Inl e
                        | Inr ci \<Rightarrow>
                            (let out' = out @ [(''docs'', docs), (''ci'', ci)]
                             in case combine (map_of out') of
                                  Inl e \<Rightarrow> Inl e
                                | Inr score \<Rightarrow> Inr (out', py_round score 2))))))"

subsection \<open>Reference formulas and example worlds\<close>

text \<open>The points of a severity: low 0.5, medium 2, high 5, anything else none; and their sum
  over the severities of a list of findings, compared without regard to case.\<close>

definition severity_points :: "string \<Rightarrow> real" where
  "severity_points sev =
     (if sev = ''low'' then 1 / 2 else if sev = ''medium'' then 2 else if sev = ''high'' then 5 else 0)"

definition points_total :: "string list \<Rightarrow> real" where
  "points_total sevs = (\<Sum>s \<leftarrow> sevs. severity_points (lower s))"

text \<open>A finding of the scanner with the severity \<open>s\<close>: a dictionary whose
  \<^verbatim>\<open>issue_severity\<close> is the string \<open>s\<close>.\<close>

fun is_finding :: "json \<Rightarrow> string \<Rightarrow> bool" where
  "is_finding (JObj kvs) s = (map_of kvs ''issue_severity'' = Some (JStr s))"
| "is_finding _ s = False"

text \<open>The fraction of the four sections that occur in the README, whatever the case of the
  letters; 0 without a README.\<close>

definition readme_fraction :: "world \<Rightarrow> real" where
  "readme_fraction w =
     (case files w ''README.md'' of
        Some (File s) \<Rightarrow> real (length (filter (\<lambda>item. sublist item (lower s)) sections)) / 4
      | _ \<Rightarrow> 0)"

text \<open>The fraction of the Python files whose first 200 characters contain one of the two
  docstring delimiters; 0 without Python files.\<close>

definition starts_with_docstring :: "world \<Rightarrow> string \<Rightarrow> bool" where
  "starts_with_docstring w f =
     (case files w f of
        Some (File s) \<Rightarrow> sublist dq3 (take 200 s) \<or> sublist sq3 (take 200 s)
      | _ \<Rightarrow> False)"

definition docstring_fraction :: "world \<Rightarrow> real" where
  "docstring_fraction w =
     (if glob_py w = [] then 0
      else real (length (filter (starts_with_docstring w) (glob_py w))) / real (length (glob_py w)))"




text \<open>The findings of the dead-code detector (the lines of its output with a colon) and the
  lines of the Python files that can be read.\<close>

definition findings :: "string list \<Rightarrow> nat" where
  "findings out_lines = length (filter (\<lambda>l. CHR '':'' \<in> set l) out_lines)"

definition readable_lines :: "world \<Rightarrow> nat" where
  "readable_lines w =
     (\<Sum>f \<leftarrow> glob_py w. case files w f of Some (File s) \<Rightarrow> num_lines s | _ \<Rightarrow> 0)"

text \<open>The ratio as the specification words it: ten times the findings over the total of
  lines, at most 1.\<close>

definition spec_dead_ratio :: "nat \<Rightarrow> nat \<Rightarrow> real" where
  "spec_dead_ratio n total_lines = min (real (n * 10) / real total_lines) 1"

text \<open>The unsigned decimal numerals among the strings that \<^verbatim>\<open>float\<close> accepts, for the
  example worlds below.\<close>

definition digit_of :: "char \<Rightarrow> nat option" where
  "digit_of c = map_of (zip ''0123456789'' [0, 1, 2, 3, 4, 5, 6, 7, 8, 9]) c"

fun digits_val :: "string \<Rightarrow> nat \<Rightarrow> nat option" where
  "digits_val [] acc = Some acc"
| "digits_val (c # cs) acc =
     (case digit_of c of None \<Rightarrow> None | Some d \<Rightarrow> digits_val cs (10 * acc + d))"

definition decimal_float :: "string \<Rightarrow> real option" where
  "decimal_float s =
     (case py_split s (CHR ''.'') of
        [a] \<Rightarrow> if a = [] then None else map_option real (digits_val a 0)
      | [a, b] \<Rightarrow>
          if a = [] \<and> b = [] then None
          else (case (digits_val a 0, digits_val b 0) of
                  (Some m, Some n) \<Rightarrow> Some (real m + real n / 10 ^ length b)
                | _ \<Rightarrow> None)
      | _ \<Rightarrow> None)"

text \<open>An empty repository on a machine without the tools, without network and without
  environment variables.\<close>

definition bare_world :: world where
  "bare_world =
     \<lparr>GITHUB_REPOSITORY = None,
      GITHUB_TOKEN = None,
      COVERAGE_PATH = None,
      files = [''.'' \<mapsto> Dir],
      glob_py = [],
      glob_tests = [],
      et_parse = (\<lambda>p. Inl (Failure ''no such file'')),
      coverage_run = Inl (Failure ''coverage: command not found''),
      vulture = NotStarted FileNotFoundError,
      bandit = NotStarted FileNotFoundError,
      requests_get = (\<lambda>url. Inl (Failure ''connection refused'')),
      py_float = decimal_float\<rparr>"




text \<open>A README with two of the four sections, and two Python files, one of which starts
  with a docstring.\<close>

definition docs_world :: world where
  "docs_world =
     bare_world\<lparr>files := [''.'' \<mapsto> Dir,
                           ''README.md'' \<mapsto> File ''# Tool. Installation: pip. License: MIT'',
                           ''a.py'' \<mapsto> File (dq3 @ ''Doc.'' @ dq3),
                           ''b.py'' \<mapsto> File ''x = 1''],
                 glob_py := [''a.py'', ''b.py'']\<rparr>"

text \<open>Two Python files, one of which cannot be opened; the detector finds nothing and exits
  with the status 0.\<close>

definition locked_world :: world where
  "locked_world =
     bare_world\<lparr>files := [''.'' \<mapsto> Dir,
                           ''a.py'' \<mapsto> File (dq3 @ ''Doc.'' @ dq3),
                           ''locked.py'' \<mapsto> Unreadable],
                 glob_py := [''a.py'', ''locked.py''],
                 vulture := Exited 0 (Inr [])\<rparr>"

text \<open>A directory whose name ends in \<^verbatim>\<open>.py\<close>, and a repository identity of three pieces.\<close>

definition odd_world :: world where
  "odd_world =
     bare_world\<lparr>GITHUB_REPOSITORY := Some ''org/team/project'',
                 GITHUB_TOKEN := Some ''t0ken'',
                 files := [''.'' \<mapsto> Dir, ''plugins.py'' \<mapsto> Dir],
                 glob_py := [''plugins.py'']\<rparr>"

text \<open>The detector is installed and reports one finding over a Python file of twenty lines.
  A run of \<^verbatim>\<open>vulture\<close> that reports dead code exits with the status 3.\<close>

definition dead_world :: world where
  "dead_world =
     bare_world\<lparr>files := [''.'' \<mapsto> Dir, ''a.py'' \<mapsto> File (replicate 20 (CHR 0x0A))],
                 glob_py := [''a.py''],
                 vulture := Exited 3 (Inr [''a.py:7: unused variable (60% confidence)''])\<rparr>"

text \<open>The scanner is installed and reports two findings of low and one of high severity.
  A run of \<^verbatim>\<open>bandit\<close> that reports an issue exits with the status 1.\<close>

definition findings_world :: world where
  "findings_world =
     bare_world\<lparr>files := [''.'' \<mapsto> Dir, ''app.py'' \<mapsto> File ''import pickle''],
                 glob_py := [''app.py''],
                 bandit := Exited 1 (Inr (JObj [(''results'',
                   JArr [JObj [(''issue_severity'', JStr ''LOW''), (''test_id'', JStr ''B403'')],
                         JObj [(''issue_severity'', JStr ''LOW''), (''test_id'', JStr ''B311'')],
                         JObj [(''issue_severity'', JStr ''HIGH''), (''test_id'', JStr ''B602'')]])]))\<rparr>"

text \<open>A credential, a repository identity, and a provider that answers with no runs.\<close>

definition no_runs_world :: world where
  "no_runs_world =
     bare_world\<lparr>GITHUB_REPOSITORY := Some ''med/repo-health-score'',
                 GITHUB_TOKEN := Some ''t0ken'',
                 requests_get := (\<lambda>url. Inr (JObj [(''total_count'', JNum 0),
                                                   (''workflow_runs'', JArr [])]))\<rparr>"

section \<open>Properties\<close>

subsection \<open>The aggregator\<close>

lemma combine_loop_sum:
  assumes "\<forall>k \<in> fst ` set ws. scores k \<noteq> None"
  shows "combine_loop scores tot ws = Inr (tot + weighted_sum scores ws)"
  using assms
proof (induction ws arbitrary: tot)
  case Nil
  then show ?case by (simp add: weighted_sum_def)
next
  case (Cons kv ws)
  obtain k v where kv: "kv = (k, v)" by (cases kv)
  from Cons.prems kv obtain r where r: "scores k = Some r" by auto
  from Cons.prems have "\<forall>k \<in> fst ` set ws. scores k \<noteq> None" by simp
  from Cons.IH [OF this] show ?case
    by (simp add: kv r weighted_sum_def)
qed

lemma weighted_sum_bounds:
  assumes "\<forall>(k, v) \<in> set ws. 0 \<le> v"
    and "\<forall>k \<in> fst ` set ws. unit_value (scores k)"
  shows "0 \<le> weighted_sum scores ws \<and> weighted_sum scores ws \<le> sum_list (map snd ws)"
  using assms
proof (induction ws)
  case Nil
  then show ?case by (simp add: weighted_sum_def)
next
  case (Cons kv ws)
  obtain k v where kv: "kv = (k, v)" by (cases kv)
  from Cons.prems kv have "unit_value (scores k)" by simp
  then obtain r where r: "scores k = Some r" "0 \<le> fst r" "fst r \<le> 1"
    by (auto simp: unit_value_def split: option.splits)
  from Cons.prems kv have v: "0 \<le> v" by simp
  have IH: "0 \<le> weighted_sum scores ws \<and> weighted_sum scores ws \<le> sum_list (map snd ws)"
    using Cons.IH Cons.prems by simp
  have "0 \<le> v * fst r" using v r by simp
  moreover have "v * fst r \<le> v" using v r by (simp add: mult_left_le)
  moreover have "weighted_sum scores (kv # ws) = v * fst r + weighted_sum scores ws"
    by (simp add: weighted_sum_def kv r)
  ultimately show ?case using IH by (simp add: kv)
qed

lemma WEIGHTS_sum: "sum_list (map snd WEIGHTS) = 1"
  by (simp add: WEIGHTS_def)

lemma WEIGHTS_nonneg: "\<forall>(k, v) \<in> set WEIGHTS. 0 \<le> v"
  by (simp add: WEIGHTS_def)

text \<open>
  Claim C1. The weights of the fixed table sum to 1, and for every assignment of the six
  metric values, each in the interval from 0 to 1, the aggregator returns
  100 times the weighted sum of the values, a number between 0 and 100.
\<close>

theorem combine_final_score_range:
  assumes "\<forall>k \<in> fst ` set WEIGHTS. unit_value (scores k)"
  shows "sum_list (map snd WEIGHTS) = 1 \<and>
         (\<exists>t. combine scores = Inr t \<and> t = 100 * weighted_sum scores WEIGHTS \<and> 0 \<le> t \<and> t \<le> 100)"
proof -
  have pres: "\<forall>k \<in> fst ` set WEIGHTS. scores k \<noteq> None"
  proof
    fix k assume "k \<in> fst ` set WEIGHTS"
    with assms have "unit_value (scores k)" by blast
    then show "scores k \<noteq> None" by (cases "scores k") (simp_all add: unit_value_def)
  qed
  have loop: "combine_loop scores 0 WEIGHTS = Inr (weighted_sum scores WEIGHTS)"
    using combine_loop_sum [OF pres, of 0] by simp
  have "0 \<le> weighted_sum scores WEIGHTS \<and> weighted_sum scores WEIGHTS \<le> 1"
    using weighted_sum_bounds [OF WEIGHTS_nonneg assms] WEIGHTS_sum by simp
  then show ?thesis
    by (simp add: combine_def loop WEIGHTS_sum)
qed

theorem combine_final_score_range_witness:
  "combine (map_of [(''structure'', (1 / 2, [])), (''tests'', (87 / 100, [])),
                    (''dead_code'', (1, [])), (''security'', (4 / 10, [])),
                    (''docs'', (1 / 2, [])), (''ci'', (9 / 10, []))]) = Inr (6825 / 100)"
proof -
  let ?scores = "map_of [(''structure'', (1 / 2, [])), (''tests'', (87 / 100, [])),
                         (''dead_code'', (1, [])), (''security'', (4 / 10, [])),
                         (''docs'', (1 / 2, [])), (''ci'', (9 / 10, []))] :: string \<rightharpoonup> metric_result"
  have h: "\<forall>k \<in> fst ` set WEIGHTS. unit_value (?scores k)"
    by (simp add: WEIGHTS_def unit_value_def)
  have ws: "weighted_sum ?scores WEIGHTS = 6825 / 10000"
    by (simp add: weighted_sum_def WEIGHTS_def)
  from combine_final_score_range [OF h]
  obtain t where t: "combine ?scores = Inr t" "t = 100 * weighted_sum ?scores WEIGHTS"
    by blast
  have "t = 6825 / 100"
    unfolding t(2) ws by simp
  with t(1) show ?thesis
    by (simp only:)
qed

subsection \<open>The security collector\<close>

lemma penalty_loop_findings:
  assumes "list_all2 is_finding issues sevs"
  shows "penalty_loop penalty issues = (penalty + points_total sevs, None)"
  using assms
proof (induction issues sevs arbitrary: penalty rule: list_all2_induct)
  case Nil
  then show ?case by (simp add: points_total_def)
next
  case (Cons issue issues s sevs)
  from Cons.hyps(1) obtain kvs where issue: "issue = JObj kvs"
    and sev: "map_of kvs ''issue_severity'' = Some (JStr s)"
    by (cases issue) simp_all
  have step: "penalty_loop penalty (issue # issues) =
              penalty_loop (penalty + severity_points (lower s)) issues"
    by (simp add: issue sev severity_points_def)
  show ?case
    by (simp only: step Cons.IH) (simp add: points_total_def)
qed

text \<open>What the loop would give if \<^verbatim>\<open>check_output\<close> returned the findings: the sum of the points
  of their severities as penalty. It returns only for the exit status 0.\<close>

lemma score_security_status_zero:
  assumes "bandit w = Exited 0 (Inr (JObj kvs))"
    and "map_of kvs ''results'' = Some (JArr issues)"
    and "list_all2 is_finding issues sevs"
  shows "score_security w =
           (max 0 (1 - points_total sevs / 10), [(''penalty'', EReal (points_total sevs))])"
proof -
  have "bandit_penalty w = (points_total sevs, None)"
    using penalty_loop_findings [OF assms(3), of 0]
    by (simp add: bandit_penalty_def check_output_def assms(1) assms(2))
  then have "security_penalty w = points_total sevs"
    by (simp add: security_penalty_def)
  then show ?thesis
    by (simp add: score_security_def Let_def)
qed

text \<open>The handler reads the path \<^verbatim>\<open>.\<close>, the current directory: the read raises, the
  exception is swallowed and the penalty stays as it was. So every run in which
  \<^verbatim>\<open>check_output\<close> raises ends with the penalty 0.\<close>

lemma heuristic_penalty_cwd:
  "files w ''.'' = Some Dir \<Longrightarrow> heuristic_penalty w penalty = penalty"
  by (simp add: heuristic_penalty_def read_text_def)

lemma score_security_unavailable:
  assumes "check_output (bandit w) = Inl e" and "files w ''.'' = Some Dir"
  shows "score_security w = (1, [(''penalty'', EReal 0)])"
  using assms
  by (simp add: score_security_def security_penalty_def bandit_penalty_def
      heuristic_penalty_cwd)

lemma score_security_status_nonzero:
  assumes "bandit w = Exited status out" and "status \<noteq> 0" and "files w ''.'' = Some Dir"
  shows "score_security w = (1, [(''penalty'', EReal 0)])"
proof -
  have "check_output (bandit w) = Inl CalledProcessError"
    by (simp add: check_output_def assms(1) assms(2))
  then show ?thesis
    using assms(3) by (rule score_security_unavailable)
qed

text \<open>
  Claim C3. For the findings low, low, high the penalty should be 0.5 + 0.5 + 5 = 6 and the
  value 0.4. The scanner that reports them exits with the status 1, for which
  \<^verbatim>\<open>check_output\<close> raises before the findings are read; the handler finds nothing either, and
  the code returns the penalty 0 and the value 1.
\<close>

theorem score_security_findings_lost:
  "score_security findings_world = (1, [(''penalty'', EReal 0)])
   \<and> points_total [''LOW'', ''LOW'', ''HIGH''] = 6"
  by (simp add: score_security_def security_penalty_def bandit_penalty_def check_output_def
      heuristic_penalty_def read_text_def findings_world_def bare_world_def
      points_total_def severity_points_def lower_def lower_char_def)

text \<open>
  Claim C4. Without the scanner, a source file that contains \<^verbatim>\<open>eval(\<close> should give the
  penalty 2 and the value 0.8. The code gives the penalty 0 and the value 1: the text it
  searches is read from the directory \<^verbatim>\<open>.\<close> itself, which cannot be read as a file.
\<close>

theorem score_security_fallback_finds_nothing:
  "score_security
     (bare_world\<lparr>files := [''.'' \<mapsto> Dir, ''app.py'' \<mapsto> File ''x = eval(input())''],
                  glob_py := [''app.py'']\<rparr>)
   = (1, [(''penalty'', EReal 0)])"
  by (simp add: score_security_def security_penalty_def bandit_penalty_def check_output_def
      heuristic_penalty_def read_text_def bare_world_def)

subsection \<open>The CI collector\<close>

lemma score_ci_unset:
  assumes "unset (GITHUB_TOKEN w) \<or> unset (GITHUB_REPOSITORY w)"
  shows "score_ci w = Inr (0, [(''note'', EStr ''no token/repo'')])"
  using assms
  by (auto simp: score_ci_def unset_def split: option.splits)

lemma score_ci_request_fails:
  assumes "GITHUB_TOKEN w = Some tok" and "tok \<noteq> []"
    and "GITHUB_REPOSITORY w = Some rp"
    and "py_split rp (CHR ''/'') = [owner, repo]"
    and "requests_get w (runs_url owner repo) = Inl e"
  shows "score_ci w = Inr (0, [(''error'', EMsg e)])"
proof -
  have "rp \<noteq> []"
    using assms(4) by (auto simp: py_split_def)
  then show ?thesis
    by (simp add: score_ci_def assms)
qed

lemma score_ci_well_formed_returns:
  assumes "GITHUB_REPOSITORY w = Some rp" and "py_split rp (CHR ''/'') = [owner, repo]"
  shows "\<exists>r. score_ci w = Inr r"
  using assms
  by (cases "GITHUB_TOKEN w") (auto simp: score_ci_def split: sum.splits)

text \<open>
  Claim C5. The CI collector should return the value 0 with a note of the cause for every
  repository identity, malformed ones too. With a credential and the identity
  \<^verbatim>\<open>repo-health-score\<close>, which has no slash, the code raises \<^verbatim>\<open>ValueError\<close>: the unpacking
  of the two pieces stands before the \<^verbatim>\<open>try\<close>.
\<close>

theorem score_ci_malformed_repository_raises:
  "score_ci (bare_world\<lparr>GITHUB_TOKEN := Some ''t0ken'',
                         GITHUB_REPOSITORY := Some ''repo-health-score''\<rparr>) = Inl ValueError"
  by (simp add: score_ci_def py_split_def bare_world_def)

text \<open>A successful answer never leads to a division by zero: the quotient is formed only
  after \<^verbatim>\<open>not runs\<close> has failed, and then the length is positive.\<close>

lemma truthy_len_pos:
  "truthy runs \<Longrightarrow> py_len runs = Inr n \<Longrightarrow> 0 < n"
  by (cases runs) auto

lemma count_success_error:
  "count_success items k = Inl e \<Longrightarrow> e = AttributeError"
proof (induction items arbitrary: k)
  case Nil
  then show ?case by simp
next
  case (Cons run rest)
  then show ?case
    by (cases run) (auto split: sum.splits)
qed

lemma ci_runs_no_division_by_zero: "ci_runs data \<noteq> Inl ZeroDivisionError"
proof
  assume a: "ci_runs data = Inl ZeroDivisionError"
  show False
  proof (cases "py_get data ''workflow_runs'' (JArr [])")
    case (Inl e)
    then have "e = AttributeError" by (cases data) simp_all
    with a Inl show False by (simp add: ci_runs_def)
  next
    case (Inr runs)
    note g = this
    show False
    proof (cases "truthy runs")
      case False
      with a g show False by (simp add: ci_runs_def)
    next
      case True
      note t = this
      show False
      proof (cases "py_len runs")
        case (Inl e)
        then have "e = TypeError" by (cases runs) simp_all
        with a g t Inl show False by (simp add: ci_runs_def)
      next
        case (Inr n)
        note l = this
        from truthy_len_pos [OF t l] have n: "0 < n" .
        show False
        proof (cases "py_iter runs")
          case (Inl e)
          then have "e = TypeError" by (cases runs) simp_all
          with a g t l Inl show False by (simp add: ci_runs_def)
        next
          case (Inr items)
          note i = this
          show False
          proof (cases "count_success items 0")
            case (Inl e)
            from count_success_error [OF Inl] a g t l i Inl show False
              by (simp add: ci_runs_def)
          next
            case (Inr success)
            with a g t l i n show False
              by (simp add: ci_runs_def py_truediv_def)
          qed
        qed
      qed
    qed
  qed
qed

text \<open>
  Claim C10. With a credential and a repository identity of two pieces, when the provider
  answers with a dictionary whose \<^verbatim>\<open>workflow_runs\<close> is the empty list, the CI collector
  returns the value 0 with the evidence \<^verbatim>\<open>{"total_runs": 0}\<close>; and whatever the answer, the
  quotient of successes by runs is never formed with zero runs.
\<close>

theorem score_ci_no_runs:
  assumes "GITHUB_TOKEN w = Some tok" and "tok \<noteq> []"
    and "GITHUB_REPOSITORY w = Some rp"
    and "py_split rp (CHR ''/'') = [owner, repo]"
    and "requests_get w (runs_url owner repo) = Inr (JObj kvs)"
    and "map_of kvs ''workflow_runs'' = Some (JArr [])"
  shows "score_ci w = Inr (0, [(''total_runs'', EInt 0)])
         \<and> (\<forall>data. ci_runs data \<noteq> Inl ZeroDivisionError)"
proof -
  have "rp \<noteq> []"
    using assms(4) by (auto simp: py_split_def)
  moreover have "ci_runs (JObj kvs) = Inr (0, [(''total_runs'', EInt 0)])"
    by (simp add: ci_runs_def assms(6))
  ultimately have "score_ci w = Inr (0, [(''total_runs'', EInt 0)])"
    by (simp add: score_ci_def assms)
  then show ?thesis
    using ci_runs_no_division_by_zero by simp
qed

theorem score_ci_no_runs_witness:
  "score_ci no_runs_world = Inr (0, [(''total_runs'', EInt 0)])"
proof -
  have a1: "GITHUB_TOKEN no_runs_world = Some ''t0ken''"
    by (simp add: no_runs_world_def)
  have a2: "''t0ken'' \<noteq> []"
    by simp
  have a3: "GITHUB_REPOSITORY no_runs_world = Some ''med/repo-health-score''"
    by (simp add: no_runs_world_def)
  have a4: "py_split ''med/repo-health-score'' (CHR ''/'') = [''med'', ''repo-health-score'']"
    by (simp add: py_split_def)
  have a5: "requests_get no_runs_world (runs_url ''med'' ''repo-health-score'') =
              Inr (JObj [(''total_count'', JNum 0), (''workflow_runs'', JArr [])])"
    by (simp add: no_runs_world_def)
  have a6: "map_of [(''total_count'', JNum 0), (''workflow_runs'', JArr [])] ''workflow_runs''
              = Some (JArr [])"
    by simp
  from score_ci_no_runs [OF a1 a2 a3 a4 a5 a6] show ?thesis
    by (rule conjunct1)
qed

subsection \<open>The tests collector\<close>







subsection \<open>The docs collector\<close>

text \<open>Looking for a lower-case word in the lower-cased text finds the word in any case.\<close>

lemma sublist_lower_iff:
  "sublist item (lower s) = (\<exists>t. sublist t s \<and> lower t = item)"
proof
  assume "sublist item (lower s)"
  then obtain ps ss where eq: "map lower_char s = ps @ (item @ ss)"
    unfolding sublist_def lower_def by blast
  from eq [unfolded map_eq_append_conv]
  obtain ps' r where r: "s = ps' @ r" "item @ ss = map lower_char r"
    by blast
  from r(2) [symmetric, unfolded map_eq_append_conv]
  obtain t ss' where t: "r = t @ ss'" "item = map lower_char t"
    by blast
  have "s = ps' @ t @ ss'"
    using r(1) t(1) by simp
  then have "sublist t s"
    unfolding sublist_def by blast
  moreover have "lower t = item"
    using t(2) by (simp add: lower_def)
  ultimately show "\<exists>t. sublist t s \<and> lower t = item"
    by blast
next
  assume "\<exists>t. sublist t s \<and> lower t = item"
  then obtain t ps ss where "s = ps @ t @ ss" "lower t = item"
    unfolding sublist_def by blast
  then have "lower s = lower ps @ item @ lower ss"
    by (simp add: lower_def)
  then show "sublist item (lower s)"
    unfolding sublist_def by blast
qed

lemma count_str_pos:
  assumes "sub \<noteq> []"
  shows "(0 < count_str sub s) = sublist sub s"
  using assms
proof (induction sub s rule: count_str.induct)
  case (1 sub s)
  show ?case
  proof (cases "length s < length sub")
    case True
    then have "\<not> sublist sub s"
      by (auto simp: sublist_def)
    with True "1.prems" show ?thesis
      by (subst count_str.simps) simp
  next
    case False
    note len = this
    show ?thesis
    proof (cases "take (length sub) s = sub")
      case True
      then have "prefix sub s"
        by (metis take_is_prefix)
      then have "sublist sub s"
        by (auto simp: prefix_def sublist_def intro: exI [of _ "[]"])
      moreover have "0 < count_str sub s"
        using True len "1.prems" by (subst count_str.simps) simp
      ultimately show ?thesis by simp
    next
      case False
      from len "1.prems" obtain y ys where s: "s = y # ys"
        by (cases s) auto
      have np: "\<not> prefix sub s"
        using False by (auto simp: prefix_def)
      have "count_str sub s = count_str sub (tl s)"
        using False len "1.prems" by (subst count_str.simps) simp
      moreover have "(0 < count_str sub (tl s)) = sublist sub (tl s)"
        using "1.IH"(2) [OF "1.prems" len False "1.prems"] .
      moreover have "sublist sub s = sublist sub (tl s)"
        using np by (simp add: s sublist_Cons_right)
      ultimately show ?thesis by simp
    qed
  qed
qed

lemma has_docstring_readable:
  assumes "files w f = Some (File s)"
  shows "has_docstring (files w) f = Inr (starts_with_docstring w f)"
  using assms
  by (simp add: has_docstring_def read_n_def read_text_def starts_with_docstring_def
      count_str_pos dq3_def sq3_def)

lemma has_doc_loop_readable:
  assumes "\<forall>f \<in> set fs. \<exists>s. files w f = Some (File s)"
  shows "has_doc_loop (files w) fs n = Inr (n + length (filter (starts_with_docstring w) fs))"
  using assms
proof (induction fs arbitrary: n)
  case Nil
  then show ?case by simp
next
  case (Cons f fs)
  then obtain s where "files w f = Some (File s)" by auto
  then have "has_docstring (files w) f = Inr (starts_with_docstring w f)"
    by (rule has_docstring_readable)
  with Cons show ?case by simp
qed

lemma readme_loop_counts:
  "readme_loop txt items (score, details) =
     (score + real (length (filter (\<lambda>item. sublist item txt) items)),
      details @ map (\<lambda>item. (item, EBool (sublist item txt))) items)"
  by (induction items arbitrary: score details) (simp_all add: Let_def)

text \<open>
  Claim C7. When the README is absent or a readable file and every Python file can be
  read, the docs collector returns 0.6 times the fraction of the four sections found in the
  README without regard to case (0 without a README) plus 0.4 times the fraction of the
  Python files whose first 200 characters contain a docstring delimiter. With two of the
  four sections and a docstring in one file of two the value is 0.5 (the witness).
\<close>

theorem score_docs_value:
  assumes "files w ''README.md'' = None \<or> (\<exists>s. files w ''README.md'' = Some (File s))"
    and "\<forall>f \<in> set (glob_py w). \<exists>s. files w f = Some (File s)"
  shows "\<exists>details. score_docs w =
           Inr (6 / 10 * readme_fraction w + 4 / 10 * docstring_fraction w,
                [(''readme_sections'', EDict details),
                 (''doc_ratio'', EReal (py_round (docstring_fraction w) 2))])"
proof -
  have ratio: "doc_ratio_of w = Inr (docstring_fraction w)"
    using has_doc_loop_readable [OF assms(2), of 0]
    by (simp add: doc_ratio_of_def docstring_fraction_def)
  from assms(1) have "\<exists>details. readme_score w = Inr (readme_fraction w, details)"
  proof
    assume "files w ''README.md'' = None"
    then show ?thesis
      by (simp add: readme_score_def readme_fraction_def path_exists_def)
  next
    assume "\<exists>s. files w ''README.md'' = Some (File s)"
    then obtain s where "files w ''README.md'' = Some (File s)" ..
    then show ?thesis
      by (simp add: readme_score_def readme_fraction_def path_exists_def read_text_def
          readme_loop_counts)
  qed
  then obtain details where "readme_score w = Inr (readme_fraction w, details)" ..
  with ratio show ?thesis
    by (simp add: score_docs_def)
qed

theorem score_docs_value_witness:
  "score_docs docs_world =
     Inr (1 / 2,
          [(''readme_sections'',
            EDict [(''installation'', EBool True), (''usage'', EBool False),
                   (''license'', EBool True), (''contributing'', EBool False)]),
           (''doc_ratio'', EReal (1 / 2))])"
proof -
  have a1: "files docs_world ''README.md'' = None
            \<or> (\<exists>s. files docs_world ''README.md'' = Some (File s))"
    by (simp add: docs_world_def)
  have a2: "\<forall>f \<in> set (glob_py docs_world). \<exists>s. files docs_world f = Some (File s)"
    by (simp add: docs_world_def)
  have rf: "readme_fraction docs_world = 1 / 2"
    by code_simp
  have df: "docstring_fraction docs_world = 1 / 2"
    by code_simp
  have v: "6 / 10 * (1 / 2) + 4 / 10 * (1 / 2) = (1 / 2 :: real)"
    by simp
  from score_docs_value [OF a1 a2]
  obtain details where d: "score_docs docs_world =
      Inr (1 / 2, [(''readme_sections'', EDict details),
                   (''doc_ratio'', EReal (py_round (1 / 2) 2))])"
    unfolding rf df v by blast
  have "readme_score docs_world =
          Inr (1 / 2, [(''installation'', EBool True), (''usage'', EBool False),
                       (''license'', EBool True), (''contributing'', EBool False)])"
    by code_simp
  moreover have "doc_ratio_of docs_world = Inr (1 / 2)"
    by code_simp
  moreover have "py_round (1 / 2) 2 = 1 / 2"
    by (simp add: py_round_def)
  ultimately show ?thesis
    using d by (simp add: score_docs_def)
qed

text \<open>
  Claim C8. A Python file that cannot be read should count as a file without docstring.
  In the code nothing catches the exception of \<^verbatim>\<open>open\<close> in the docs collector: with one
  file that cannot be opened the collector raises \<^verbatim>\<open>PermissionError\<close> and so does the whole
  run, whereas the loop of the dead-code collector over the same files skips the file.
\<close>

theorem score_docs_unreadable_file_raises:
  "score_docs locked_world = Inl PermissionError
   \<and> main locked_world = Inl PermissionError
   \<and> total_lines_loop (files locked_world) (glob_py locked_world) 0 = 1
   \<and> score_dead_code locked_world = (1, [(''dead_ratio'', EReal 0)])"
  by code_simp

subsection \<open>The dead-code collector\<close>

lemma total_lines_loop_sum:
  "total_lines_loop (files w) fs n =
     n + (\<Sum>f \<leftarrow> fs. case files w f of Some (File s) \<Rightarrow> num_lines s | _ \<Rightarrow> 0)"
proof (induction fs arbitrary: n)
  case Nil
  then show ?case by simp
next
  case (Cons f fs)
  show ?case
  proof (cases "files w f")
    case None
    then show ?thesis by (simp add: Cons.IH read_text_def)
  next
    case (Some nd)
    then show ?thesis by (cases nd) (simp_all add: Cons.IH read_text_def)
  qed
qed

lemma in_set_dropWhile:
  "x \<in> set xs \<Longrightarrow> \<not> P x \<Longrightarrow> x \<in> set (dropWhile P xs)"
  by (induction xs) auto

lemma colon_not_stripped:
  assumes "CHR '':'' \<in> set l"
  shows "strip l \<noteq> []"
proof -
  have ns: "\<not> is_space (CHR '':'')"
    by (simp add: is_space_def)
  from assms ns have "CHR '':'' \<in> set (rev (dropWhile is_space l))"
    by (simp add: in_set_dropWhile)
  then have "CHR '':'' \<in> set (dropWhile is_space (rev (dropWhile is_space l)))"
    using ns by (rule in_set_dropWhile)
  then have "dropWhile is_space (rev (dropWhile is_space l)) \<noteq> []"
    by (metis empty_iff empty_set)
  then show ?thesis
    unfolding strip_def rev_is_Nil_conv .
qed

lemma sublist_single: "sublist [c] l = (c \<in> set l)"
proof (induction l)
  case Nil
  then show ?case by simp
next
  case (Cons a l)
  have "prefix [c] (a # l) = (c = a)" by auto
  with Cons show ?case
    by (auto simp: sublist_Cons_right)
qed

lemma flagged_lines_findings: "flagged_lines out_lines = findings out_lines"
proof -
  have "(\<lambda>l. strip l \<noteq> [] \<and> sublist '':'' l) = (\<lambda>l. CHR '':'' \<in> set l)"
    by (auto simp: sublist_single colon_not_stripped)
  then show ?thesis
    by (simp add: flagged_lines_def findings_def)
qed

text \<open>What the collector computes when \<^verbatim>\<open>check_output\<close> returns the output, which it does only
  for the exit status 0; and what it returns for every other status.\<close>

lemma score_dead_code_status_zero:
  assumes "vulture w = Exited 0 (Inr out_lines)"
  shows "score_dead_code w =
        (1 - min (real (findings out_lines * 10) / real (max (readable_lines w) 1)) 1,
         [(''dead_ratio'',
           EReal (py_round (min (real (findings out_lines * 10) / real (max (readable_lines w) 1)) 1) 3))])"
proof -
  have "total_lines_loop (files w) (glob_py w) 0 = readable_lines w"
    by (simp add: total_lines_loop_sum readable_lines_def)
  then show ?thesis
    by (simp add: score_dead_code_def dead_ratio_of_def check_output_def assms
        flagged_lines_findings Let_def)
qed

lemma score_dead_code_unavailable:
  assumes "check_output (vulture w) = Inl e"
  shows "score_dead_code w = (1, [(''dead_ratio'', EReal 0)])"
  using assms by (simp add: score_dead_code_def dead_ratio_of_def py_round_def)

lemma score_dead_code_status_nonzero:
  assumes "vulture w = Exited status out" and "status \<noteq> 0"
  shows "score_dead_code w = (1, [(''dead_ratio'', EReal 0)])"
proof -
  have "check_output (vulture w) = Inl CalledProcessError"
    by (simp add: check_output_def assms)
  then show ?thesis
    by (rule score_dead_code_unavailable)
qed

text \<open>
  Claim C9. When the detector flags findings, the ratio should be ten times the findings
  over the total of lines, at most 1, and the value 1 minus the ratio: for one finding over
  twenty lines the ratio 0.5 and the value 0.5. The detector that reports a finding exits
  with the status 3, for which \<^verbatim>\<open>check_output\<close> raises before the output is counted; the
  handler sets the ratio to 0, and the code returns the value 1.
\<close>

theorem score_dead_code_findings_lost:
  "vulture dead_world = Exited 3 (Inr [''a.py:7: unused variable (60% confidence)''])
   \<and> findings [''a.py:7: unused variable (60% confidence)''] = 1
   \<and> readable_lines dead_world = 20
   \<and> spec_dead_ratio 1 20 = 1 / 2
   \<and> score_dead_code dead_world = (1, [(''dead_ratio'', EReal 0)])"
  by code_simp

subsection \<open>All collectors\<close>

text \<open>Whenever a collector returns, its value lies between 0 and 1 (with the reals for the
  floats of the script).\<close>

lemma found_loop_le:
  "found_loop fls fs k = Inr n \<Longrightarrow> n \<le> k + length fs"
proof (induction fs arbitrary: k)
  case Nil
  then show ?case by simp
next
  case (Cons f fs)
  then show ?case
    by (cases "path_exists fls f") (auto split: if_splits dest: Cons.IH)
qed

lemma score_structure_range:
  assumes "score_structure w = Inr (v, e)"
  shows "0 \<le> v \<and> v \<le> 1"
proof -
  from assms obtain found where f: "found_loop (files w) required 0 = Inr found"
    and v: "v = real found / real (length required)"
    by (auto simp: score_structure_def split: sum.splits)
  from found_loop_le [OF f] have "found \<le> length required" by simp
  then show ?thesis
    unfolding v by (simp add: required_def)
qed

lemma score_tests_range:
  assumes "score_tests w = Inr (v, e)"
  shows "0 \<le> v \<and> v \<le> 1"
  using assms by (auto simp: score_tests_def split: sum.splits option.splits)

lemma dead_ratio_range: "0 \<le> dead_ratio_of w \<and> dead_ratio_of w \<le> 1"
  by (simp add: dead_ratio_of_def Let_def split: sum.splits)

lemma score_dead_code_range:
  "0 \<le> fst (score_dead_code w) \<and> fst (score_dead_code w) \<le> 1"
  using dead_ratio_range [of w] by (simp add: score_dead_code_def Let_def)

lemma penalty_loop_nonneg:
  "0 \<le> penalty \<Longrightarrow> 0 \<le> fst (penalty_loop penalty issues)"
proof (induction issues arbitrary: penalty)
  case Nil
  then show ?case by simp
next
  case (Cons issue rest)
  show ?case
  proof (cases "py_get issue ''issue_severity'' (JStr [])")
    case (Inl e)
    with Cons.prems show ?thesis by simp
  next
    case (Inr s)
    note g = this
    show ?thesis
    proof (cases "py_lower s")
      case (Inl e)
      with g Cons.prems show ?thesis by simp
    next
      case (Inr sev)
      have "0 \<le> (if sev = ''low'' then penalty + 1 / 2
                  else if sev = ''medium'' then penalty + 2
                  else if sev = ''high'' then penalty + 5
                  else penalty)"
        using Cons.prems by simp
      from Cons.IH [OF this] g Inr show ?thesis by simp
    qed
  qed
qed

lemma security_penalty_nonneg: "0 \<le> security_penalty w"
proof -
  have b: "0 \<le> fst (bandit_penalty w)"
    using penalty_loop_nonneg [of 0]
    by (simp add: bandit_penalty_def split: sum.splits)
  have h: "\<And>p. 0 \<le> p \<Longrightarrow> 0 \<le> heuristic_penalty w p"
    by (simp add: heuristic_penalty_def split: sum.splits)
  obtain p x where px: "bandit_penalty w = (p, x)" by (cases "bandit_penalty w")
  with b have "0 \<le> p" by simp
  with h px show ?thesis
    by (cases x) (simp_all add: security_penalty_def)
qed

lemma score_security_range:
  "0 \<le> fst (score_security w) \<and> fst (score_security w) \<le> 1"
  using security_penalty_nonneg [of w] by (simp add: score_security_def Let_def)

lemma readme_score_range:
  assumes "readme_score w = Inr (score, details)"
  shows "0 \<le> score \<and> score \<le> 1"
proof (cases "path_exists (files w) ''README.md''")
  case (Inl e)
  with assms show ?thesis by (simp add: readme_score_def)
next
  case (Inr b)
  note ex = this
  show ?thesis
  proof (cases b)
    case False
    with ex assms show ?thesis by (simp add: readme_score_def)
  next
    case True
    note b = this
    show ?thesis
    proof (cases "read_text (files w) ''README.md''")
      case (Inl e)
      with ex b assms show ?thesis by (simp add: readme_score_def)
    next
      case (Inr s)
      have "length (filter (\<lambda>item. sublist item (lower s)) sections) \<le> length sections"
        by (rule length_filter_le)
      then have "real (length (filter (\<lambda>item. sublist item (lower s)) sections)) \<le> 4"
        by (simp add: sections_def)
      with ex b Inr assms show ?thesis
        by (auto simp: readme_score_def readme_loop_counts)
    qed
  qed
qed

lemma has_doc_loop_le:
  "has_doc_loop fls fs n = Inr h \<Longrightarrow> h \<le> n + length fs"
proof (induction fs arbitrary: n)
  case Nil
  then show ?case by simp
next
  case (Cons f fs)
  then show ?case
    by (cases "has_docstring fls f") (auto split: if_splits dest: Cons.IH)
qed

lemma doc_ratio_range:
  assumes "doc_ratio_of w = Inr r"
  shows "0 \<le> r \<and> r \<le> 1"
proof (cases "glob_py w = []")
  case True
  with assms show ?thesis by (simp add: doc_ratio_of_def)
next
  case False
  with assms obtain h where h: "has_doc_loop (files w) (glob_py w) 0 = Inr h"
    and r: "r = real h / real (length (glob_py w))"
    by (auto simp: doc_ratio_of_def split: sum.splits)
  from has_doc_loop_le [OF h] have "h \<le> length (glob_py w)" by simp
  with False r show ?thesis by simp
qed

lemma score_docs_range:
  assumes "score_docs w = Inr (v, e)"
  shows "0 \<le> v \<and> v \<le> 1"
proof -
  from assms obtain score details r where s: "readme_score w = Inr (score, details)"
    and d: "doc_ratio_of w = Inr r" and v: "v = 6 / 10 * score + 4 / 10 * r"
    by (auto simp: score_docs_def split: sum.splits)
  from readme_score_range [OF s] doc_ratio_range [OF d] show ?thesis
    unfolding v by simp
qed

lemma count_success_le:
  "count_success items k = Inr s \<Longrightarrow> s \<le> k + length items"
proof (induction items arbitrary: k)
  case Nil
  then show ?case by simp
next
  case (Cons run rest)
  then show ?case
    by (cases "py_get run ''conclusion'' JNull") (auto split: if_splits dest: Cons.IH)
qed

lemma len_iter:
  "py_len runs = Inr n \<Longrightarrow> py_iter runs = Inr items \<Longrightarrow> length items = n"
  by (cases runs) auto

lemma ci_runs_range:
  assumes "ci_runs data = Inr (v, e)"
  shows "0 \<le> v \<and> v \<le> 1"
proof -
  from assms obtain runs where g: "py_get data ''workflow_runs'' (JArr []) = Inr runs"
    by (auto simp: ci_runs_def split: sum.splits)
  show ?thesis
  proof (cases "truthy runs")
    case False
    with assms g show ?thesis by (simp add: ci_runs_def)
  next
    case True
    with assms g obtain n items s where l: "py_len runs = Inr n"
      and i: "py_iter runs = Inr items" and c: "count_success items 0 = Inr s"
      and d: "py_truediv s n = Inr v"
      by (auto simp: ci_runs_def split: sum.splits)
    from count_success_le [OF c] len_iter [OF l i] have "s \<le> n" by simp
    moreover from d have "0 < n" "v = real s / real n"
      by (auto simp: py_truediv_def split: if_splits)
    ultimately show ?thesis by simp
  qed
qed

lemma score_ci_range:
  assumes "score_ci w = Inr (v, e)"
  shows "0 \<le> v \<and> v \<le> 1"
proof -
  have "(v, e) = (0, [(''note'', EStr ''no token/repo'')])
        \<or> (\<exists>x. (v, e) = (0, [(''error'', EMsg x)]))
        \<or> (\<exists>data. ci_runs data = Inr (v, e))"
    using assms
    by (auto simp: score_ci_def split: option.splits if_splits list.splits sum.splits)
  then show ?thesis
    using ci_runs_range by auto
qed

lemma collector_values_in_unit_interval:
  "(\<forall>v e. score_structure w = Inr (v, e) \<longrightarrow> 0 \<le> v \<and> v \<le> 1)
   \<and> (\<forall>v e. score_tests w = Inr (v, e) \<longrightarrow> 0 \<le> v \<and> v \<le> 1)
   \<and> 0 \<le> fst (score_dead_code w) \<and> fst (score_dead_code w) \<le> 1
   \<and> 0 \<le> fst (score_security w) \<and> fst (score_security w) \<le> 1
   \<and> (\<forall>v e. score_docs w = Inr (v, e) \<longrightarrow> 0 \<le> v \<and> v \<le> 1)
   \<and> (\<forall>v e. score_ci w = Inr (v, e) \<longrightarrow> 0 \<le> v \<and> v \<le> 1)"
  using score_structure_range [of w] score_tests_range [of w] score_dead_code_range [of w]
    score_security_range [of w] score_docs_range [of w] score_ci_range [of w]
  by blast

text \<open>The run returns a report when the four collectors that can raise return, and fails
  with the exception of the first of them that raises.\<close>

lemma main_returns:
  assumes "score_structure w = Inr struct" and "score_tests w = Inr tests"
    and "score_docs w = Inr docs" and "score_ci w = Inr ci"
  shows "\<exists>out final. main w = Inr (out, final)"
proof -
  let ?out = "[(''structure'', struct), (''tests'', tests),
               (''dead_code'', score_dead_code w), (''security'', score_security w)]
              @ [(''docs'', docs), (''ci'', ci)]"
  have pres: "\<forall>k \<in> fst ` set WEIGHTS. map_of ?out k \<noteq> None"
    by (simp add: WEIGHTS_def)
  have loop: "combine_loop (map_of ?out) 0 WEIGHTS = Inr (0 + weighted_sum (map_of ?out) WEIGHTS)"
    using pres by (rule combine_loop_sum)
  have "combine (map_of ?out) = Inr ((0 + weighted_sum (map_of ?out) WEIGHTS) * 100)"
    by (simp only: combine_def loop sum.case)
  then have "main w = Inr (?out, py_round ((0 + weighted_sum (map_of ?out) WEIGHTS) * 100) 2)"
    by (simp only: main_def Let_def assms sum.case)
  then show ?thesis by blast
qed

lemma main_raises:
  assumes "score_structure w = Inr struct" and "score_tests w = Inr tests"
  shows "score_docs w = Inl e \<Longrightarrow> main w = Inl e"
  by (simp add: main_def Let_def assms)

text \<open>The status test of a path is not guarded anywhere: a path whose status cannot be read
  makes the structure collector raise.\<close>

lemma score_structure_raises:
  "files w ''README.md'' = Some NoStat \<Longrightarrow> score_structure w = Inl OSError"
  by (simp add: score_structure_def required_def path_exists_def)

text \<open>
  Claim C2. Every collector should return a value between 0 and 1 for every state of the
  repository. With a directory whose name ends in \<^verbatim>\<open>.py\<close> the docs collector returns no
  value: it raises \<^verbatim>\<open>IsADirectoryError\<close>; and with a repository identity of three pieces
  the CI collector raises \<^verbatim>\<open>ValueError\<close>.
\<close>

theorem collectors_raise_instead_of_returning:
  "score_docs odd_world = Inl IsADirectoryError
   \<and> score_ci odd_world = Inl ValueError
   \<and> main odd_world = Inl IsADirectoryError"
  by code_simp

end
